theory Spec2Isabelle
  imports Main
begin

section \<open>Python values of a parsed configuration\<close>

text \<open>
  The configuration handed to \<^verbatim>\<open>get_repos\<close> is the result of a YAML load: a nested
  structure of None, booleans, integers, strings, lists and dicts. A dict is an
  association list (insertion order is the iteration order, keys are distinct).
  Strings are lists of code points below 256. Floats, byte strings and dates are
  outside this model. The configuration is a tree: no object is reachable through two
  different paths.
\<close>

datatype pyval =
    PNone
  | PBool bool
  | PInt int
  | PStr string
  | PList "pyval list"
  | PDict "(pyval \<times> pyval) list"

type_synonym pydict = "(pyval \<times> pyval) list"

text \<open>Exceptions that can leave \<^verbatim>\<open>get_repos\<close>: its own \<^verbatim>\<open>ConfigException\<close>, the two
  built-in exceptions that ill-typed input provokes, and an exception raised by the git
  layer (identified by its text).\<close>

datatype py_exn =
    ConfigException string
  | AttributeError
  | TypeError
  | Raised string

text \<open>Truth value of an object (\<^verbatim>\<open>not url\<close>, \<^verbatim>\<open>x or {}\<close>, \<^verbatim>\<open>if cmds\<close>).\<close>

fun truthy :: "pyval \<Rightarrow> bool" where
  "truthy PNone = False"
| "truthy (PBool b) = b"
| "truthy (PInt i) = (i \<noteq> 0)"
| "truthy (PStr s) = (s \<noteq> [])"
| "truthy (PList xs) = (xs \<noteq> [])"
| "truthy (PDict d) = (d \<noteq> [])"

text \<open>\<^verbatim>\<open>d[k] = v\<close>: an existing key keeps its position, a new key goes to the end.\<close>

fun dict_set :: "pydict \<Rightarrow> pyval \<Rightarrow> pyval \<Rightarrow> pydict" where
  "dict_set [] k v = [(k, v)]"
| "dict_set ((k', v') # d) k v = (if k' = k then (k, v) # d else (k', v') # dict_set d k v)"

text \<open>\<^verbatim>\<open>d.get(k, default)\<close> for a string key.\<close>

definition dict_get :: "pydict \<Rightarrow> string \<Rightarrow> pyval \<Rightarrow> pyval" where
  "dict_get d k dflt = (case map_of d (PStr k) of None \<Rightarrow> dflt | Some v \<Rightarrow> v)"

subsection \<open>Text operations\<close>

definition digit_char :: "nat \<Rightarrow> char" where
  "digit_char n = ''0123456789'' ! n"

fun digits :: "nat \<Rightarrow> string" where
  "digits n = (if n < 10 then [digit_char n] else digits (n div 10) @ [digit_char (n mod 10)])"

definition str_int :: "int \<Rightarrow> string" where
  "str_int i = (if i < 0 then CHR ''-'' # digits (nat (- i)) else digits (nat i))"

text \<open>\<^verbatim>\<open>s.split(' ')\<close>: split at every single space, keeping empty pieces.\<close>

fun split_sep :: "char \<Rightarrow> string \<Rightarrow> string list" where
  "split_sep c [] = [[]]"
| "split_sep c (x # xs) =
     (if x = c then [] # split_sep c xs
      else (case split_sep c xs of [] \<Rightarrow> [[x]] | w # ws \<Rightarrow> (x # w) # ws))"

text \<open>White space of \<^verbatim>\<open>str.split()\<close> among the code points below 256.\<close>

definition is_space :: "char \<Rightarrow> bool" where
  "is_space c = (let n = (of_char c :: nat) in
     (9 \<le> n \<and> n \<le> 13) \<or> (28 \<le> n \<and> n \<le> 32) \<or> n = 133 \<or> n = 160)"

text \<open>\<^verbatim>\<open>s.split()\<close>: split at runs of white space, no empty pieces. The first argument
  is the word being read.\<close>

fun split_ws :: "string \<Rightarrow> string \<Rightarrow> string list" where
  "split_ws w [] = (if w = [] then [] else [w])"
| "split_ws w (x # xs) =
     (if is_space x then (if w = [] then split_ws [] xs else w # split_ws [] xs)
      else split_ws (w @ [x]) xs)"

text \<open>Iterating over a value (\<^verbatim>\<open>for merge in merge_data\<close>): the elements of a list,
  the keys of a dict, the characters of a string; anything else is not iterable.\<close>

fun py_iter :: "pyval \<Rightarrow> py_exn + pyval list" where
  "py_iter (PList xs) = Inr xs"
| "py_iter (PDict d) = Inr (map fst d)"
| "py_iter (PStr s) = Inr (map (\<lambda>c. PStr [c]) s)"
| "py_iter _ = Inl TypeError"

text \<open>Lists and dicts cannot be members of a set; \<^verbatim>\<open>True\<close> and \<^verbatim>\<open>False\<close> are equal
  to 1 and 0 and are the same member of a set.\<close>

fun unhashable :: "pyval \<Rightarrow> bool" where
  "unhashable (PList xs) = True"
| "unhashable (PDict d) = True"
| "unhashable _ = False"

fun hash_key :: "pyval \<Rightarrow> pyval" where
  "hash_key (PBool b) = PInt (if b then 1 else 0)"
| "hash_key v = v"

section \<open>The git layer and the operating system\<close>

text \<open>
  \<^verbatim>\<open>get_repos\<close> calls into \<^verbatim>\<open>os.path\<close> and into the class \<^verbatim>\<open>Repo\<close> and the
  function \<^verbatim>\<open>ishex\<close> of \<^verbatim>\<open>repo.py\<close>. They are parameters of the model. Every call
  into the git layer and every logged warning is recorded as an event; what the git
  layer answers may depend on all the events so far.
\<close>

datatype event =
    GetRemotes string
  | SetRemote string pyval pyval
  | QueryRemoteRef string string string
  | LogWarning string
  | LogException string

text \<open>Outcome of \<^verbatim>\<open>query_remote_ref\<close>: it returns a pair whose first component is the
  kind of ref (\<^verbatim>\<open>None\<close> when the ref was not found), or it raises.\<close>

datatype query_result =
    Returns "string option"
  | Raises string

record env =
  isabs :: "string \<Rightarrow> bool"
  abspath :: "string \<Rightarrow> string"
  path_exists :: "string \<Rightarrow> bool"
  repo_truth :: "string \<Rightarrow> bool"
  get_remotes :: "event list \<Rightarrow> string \<Rightarrow> pydict option"
  set_remote :: "event list \<Rightarrow> string \<Rightarrow> pyval \<Rightarrow> pyval \<Rightarrow> string option"
  query_remote_ref :: "event list \<Rightarrow> string \<Rightarrow> string \<Rightarrow> string \<Rightarrow> query_result"
  ishex :: "string \<Rightarrow> bool"
  str_container :: "pyval \<Rightarrow> string"

text \<open>
  \<^item> \<open>repo_truth E cwd\<close> is the truth value of the object \<^verbatim>\<open>Repo(cwd, [], [], None)\<close>
    (for a Python class that defines neither \<^verbatim>\<open>__bool__\<close> nor \<^verbatim>\<open>__len__\<close> it is
    true); building the object does not raise and its \<^verbatim>\<open>cwd\<close> is the path given.
  \<^item> \<open>get_remotes E evs cwd\<close> is \<open>None\<close> when \<^verbatim>\<open>_get_remotes()\<close> raises or its result has
    no \<^verbatim>\<open>items()\<close>, and the dict otherwise.
  \<^item> \<open>set_remote E evs cwd name url\<close> is \<open>Some x\<close> when \<^verbatim>\<open>_set_remote\<close> raises \<open>x\<close>.
  \<^item> \<open>str_container E v\<close> is \<^verbatim>\<open>str(v)\<close> for a list or a dict.
\<close>

text \<open>\<^verbatim>\<open>str(v)\<close>.\<close>

fun py_str :: "env \<Rightarrow> pyval \<Rightarrow> string" where
  "py_str E PNone = ''None''"
| "py_str E (PBool b) = (if b then ''True'' else ''False'')"
| "py_str E (PInt i) = str_int i"
| "py_str E (PStr s) = s"
| "py_str E v = str_container E v"

section \<open>The resolved specification\<close>

record remote_entry =
  name :: pyval
  url :: pyval

record target_spec =
  remote :: "string option"
  branch :: string

text \<open>\<^verbatim>\<open>fetch_all\<close> is a frozenset or the value of the configuration as it is. The
  members of the frozenset are taken up to Python's equality: a boolean member is
  represented by the integer it is equal to (\<open>hash_key\<close>).\<close>

datatype fetch_scope =
    FetchValue pyval
  | FetchSet "pyval set"

record repo_spec =
  cwd :: string
  defaults :: pyval
  force :: bool
  skip_dry_run :: pyval
  apply_patch :: pyval
  skip_repo_init :: pyval
  remotes :: "remote_entry list"
  merges :: "pydict list"
  fetch_all :: fetch_scope
  target :: target_spec
  shell_command_after :: pyval

section \<open>get\_repos\<close>

definition config_error :: "string \<Rightarrow> string \<Rightarrow> py_exn" where
  "config_error directory text = ConfigException (directory @ '': '' @ text)"

subsection \<open>Remotes (lines 40 to 70)\<close>

fun remotes_from_data :: "env \<Rightarrow> string \<Rightarrow> pydict \<Rightarrow> remote_entry list \<Rightarrow> py_exn + remote_entry list" where
  "remotes_from_data E directory [] acc = Inr acc"
| "remotes_from_data E directory ((remote_name, u) # rest) acc =
     (if \<not> truthy u
      then Inl (config_error directory (''No url defined for remote '' @ py_str E remote_name @ ''.''))
      else remotes_from_data E directory rest (acc @ [\<lparr>name = remote_name, url = u\<rparr>]))"

definition resolve_remotes ::
  "env \<Rightarrow> event list \<Rightarrow> string \<Rightarrow> pydict \<Rightarrow> (py_exn + remote_entry list) \<times> event list" where
  "resolve_remotes E evs directory repo_data =
     (case map_of repo_data (PStr ''remotes'') of
        Some v \<Rightarrow>
          (case (if truthy v then v else PDict []) of
             PDict remotes_data \<Rightarrow>
               (case remotes_from_data E directory remotes_data [] of
                  Inl e \<Rightarrow> (Inl e, evs)
                | Inr rs \<Rightarrow>
                    if rs = []
                    then (Inl (config_error directory ''You should at least define one remote.''), evs)
                    else (Inr rs, evs))
           | _ \<Rightarrow> (Inl AttributeError, evs))
      | None \<Rightarrow>
          (case get_remotes E evs directory of
             None \<Rightarrow> (Inl (config_error directory ''remotes is not defined.''),
                       evs @ [GetRemotes directory])
           | Some found \<Rightarrow>
               (Inr (map (\<lambda>(remote_name, u). \<lparr>name = remote_name, url = u\<rparr>) found),
                evs @ [GetRemotes directory])))"

subsection \<open>Merges (lines 71 to 127)\<close>

text \<open>Lines 79 and 80: the calls of \<^verbatim>\<open>_set_remote\<close>, stopping at the first that raises.\<close>

fun set_remotes :: "env \<Rightarrow> string \<Rightarrow> remote_entry list \<Rightarrow> event list \<Rightarrow> py_exn option \<times> event list" where
  "set_remotes E directory [] evs = (None, evs)"
| "set_remotes E directory (r # rs) evs =
     (case set_remote E evs directory (name r) (url r) of
        Some x \<Rightarrow> (Some (Raised x), evs @ [SetRemote directory (name r) (url r)])
      | None \<Rightarrow> set_remotes E directory rs (evs @ [SetRemote directory (name r) (url r)]))"

text \<open>
  Lines 82 to 101: one merge entry is brought into the shape of a dict with the keys
  \<^verbatim>\<open>remote\<close> and \<^verbatim>\<open>ref\<close>. The result is the remote, the ref and the dict that goes into
  the list of merges (or the exception), and the entry as it is in the configuration
  afterwards: a dict entry is written to in place.
\<close>

definition merge_format_text :: string where
  "merge_format_text =
     ''Merge must be formatted as '' @ [CHR 0x22] @ ''remote_name ref'' @ [CHR 0x22] @ ''.''"

definition merge_keys_text :: string where
  "merge_keys_text =
     ''Merge lacks mandatory '' @ [CHR 0x60] @ ''remote'' @ [CHR 0x60] @ '' or ''
       @ [CHR 0x60] @ ''ref'' @ [CHR 0x60] @ '' keys.''"

definition parse_merge ::
  "env \<Rightarrow> string \<Rightarrow> pyval \<Rightarrow> (py_exn + string \<times> string \<times> pydict) \<times> pyval" where
  "parse_merge E directory merge =
     (case merge of
        PStr s \<Rightarrow>
          (case split_sep CHR '' '' s of
             [p0, p1] \<Rightarrow> (Inr (p0, p1, [(PStr ''remote'', PStr p0), (PStr ''ref'', PStr p1)]), merge)
           | _ \<Rightarrow> (Inl (config_error directory merge_format_text), merge))
      | PDict m \<Rightarrow>
          (case map_of m (PStr ''remote'') of
             None \<Rightarrow> (Inl (config_error directory merge_keys_text), merge)
           | Some r \<Rightarrow>
               (let m1 = dict_set m (PStr ''remote'') (PStr (py_str E r)) in
                case map_of m1 (PStr ''ref'') of
                  None \<Rightarrow> (Inl (config_error directory merge_keys_text), PDict m1)
                | Some f \<Rightarrow>
                    (let m2 = dict_set m1 (PStr ''ref'') (PStr (py_str E f)) in
                     (Inr (py_str E r, py_str E f, m2), PDict m2))))
      | _ \<Rightarrow> (Inl TypeError, merge))"

definition ref_missing_text :: "string \<Rightarrow> string \<Rightarrow> string \<Rightarrow> string" where
  "ref_missing_text directory rf rm =
     directory @ '' - Ref: '' @ rf @ '' does not exists in remote '' @ rm"

text \<open>
  Lines 81 to 120: the loop over the merge entries. The state is the list \<^verbatim>\<open>merges\<close>
  built so far, the entries already visited as they are now in the configuration, and
  the events. The result holds the exception, if one was raised, and all the entries of
  the configuration, visited or not.
\<close>

fun merges_loop ::
  "env \<Rightarrow> bool \<Rightarrow> string \<Rightarrow> pyval list \<Rightarrow> pyval list
    \<Rightarrow> pydict list \<times> pyval list \<times> event list
    \<Rightarrow> py_exn option \<times> pydict list \<times> pyval list \<times> event list" where
  "merges_loop E skip_merge_check directory remote_names [] (ms, visited, evs) =
     (None, ms, visited, evs)"
| "merges_loop E skip_merge_check directory remote_names (merge # rest) (ms, visited, evs) =
     (case parse_merge E directory merge of
        (Inl e, merge') \<Rightarrow> (Some e, ms, visited @ merge' # rest, evs)
      | (Inr (rm, rf, m), merge') \<Rightarrow>
          if PStr rm \<notin> set remote_names
          then (Some (config_error directory (''Merge remote '' @ rm @ '' not defined in remotes.'')),
                ms, visited @ merge' # rest, evs)
          else if \<not> skip_merge_check \<and> repo_truth E directory
          then
            (case query_remote_ref E evs directory rm rf of
               Returns rtype \<Rightarrow>
                 if rtype = None \<and> \<not> ishex E rf
                 then merges_loop E skip_merge_check directory remote_names rest
                        (ms, visited @ [merge'],
                         evs @ [QueryRemoteRef directory rm rf,
                                LogWarning (ref_missing_text directory rf rm)])
                 else merges_loop E skip_merge_check directory remote_names rest
                        (ms @ [m], visited @ [merge'], evs @ [QueryRemoteRef directory rm rf])
             | Raises x \<Rightarrow>
                 merges_loop E skip_merge_check directory remote_names rest
                   (ms @ [m], visited @ [merge'],
                    evs @ [QueryRemoteRef directory rm rf, LogException x]))
          else merges_loop E skip_merge_check directory remote_names rest
                 (ms @ [m], visited @ [merge'], evs))"

text \<open>The entries of a list are objects of the configuration and are written back; the
  keys of a dict and the characters of a string are never dicts.\<close>

definition write_back :: "pydict \<Rightarrow> pyval \<Rightarrow> pyval list \<Rightarrow> pydict" where
  "write_back repo_data v visited =
     (case v of PList xs \<Rightarrow> dict_set repo_data (PStr ''merges'') (PList visited)
      | _ \<Rightarrow> repo_data)"

definition resolve_merges ::
  "env \<Rightarrow> bool \<Rightarrow> event list \<Rightarrow> string \<Rightarrow> remote_entry list \<Rightarrow> pydict
    \<Rightarrow> (py_exn + pydict list) \<times> pydict \<times> event list" where
  "resolve_merges E skip_merge_check evs directory rs repo_data =
     (case map_of repo_data (PStr ''merges'') of
        None \<Rightarrow> (Inl (config_error directory ''merges is not defined.''), repo_data, evs)
      | Some v \<Rightarrow>
          (case (if \<not> skip_merge_check \<and> path_exists E directory
                 then set_remotes E directory rs evs else (None, evs)) of
             (Some e, evs1) \<Rightarrow> (Inl e, repo_data, evs1)
           | (None, evs1) \<Rightarrow>
               (case py_iter (if truthy v then v else PList []) of
                  Inl e \<Rightarrow> (Inl e, repo_data, evs1)
                | Inr merge_data \<Rightarrow>
                    (case merges_loop E skip_merge_check directory (map name rs) merge_data
                            ([], [], evs1) of
                       (Some e, ms, visited, evs2) \<Rightarrow> (Inl e, write_back repo_data v visited, evs2)
                     | (None, ms, visited, evs2) \<Rightarrow>
                         if ms = []
                         then (Inl (config_error directory ''You should at least define one merge.''),
                               write_back repo_data v visited, evs2)
                         else (Inr ms, write_back repo_data v visited, evs2)))))"

subsection \<open>Fetch scope, target and commands (lines 128 to 167)\<close>

definition normalize_fetch_all :: "pydict \<Rightarrow> py_exn + fetch_scope" where
  "normalize_fetch_all repo_data =
     (case dict_get repo_data ''fetch_all'' (PBool False) of
        PStr s \<Rightarrow> Inr (FetchSet {PStr s})
      | PList xs \<Rightarrow>
          if list_ex unhashable xs then Inl TypeError
          else Inr (FetchSet (set (map hash_key xs)))
      | v \<Rightarrow> Inr (FetchValue v))"

definition target_format_text :: string where
  "target_format_text =
     ''Target must be formatted as '' @ [CHR 0x22] @ ''[remote_name] branch_name'' @ [CHR 0x22]"

definition resolve_target :: "env \<Rightarrow> string \<Rightarrow> pyval list \<Rightarrow> pydict \<Rightarrow> py_exn + target_spec" where
  "resolve_target E directory remote_names repo_data =
     (case split_ws [] (py_str E (dict_get repo_data ''target'' (PStr ''''))) of
        [] \<Rightarrow> Inr \<lparr>remote = None, branch = ''_git_aggregated''\<rparr>
      | [b] \<Rightarrow> Inr \<lparr>remote = None, branch = b\<rparr>
      | [remote_name, b] \<Rightarrow>
          if PStr remote_name \<notin> set remote_names
          then Inl (config_error directory
                      (''Target remote '' @ remote_name @ '' not defined in remotes.''))
          else Inr \<lparr>remote = Some remote_name, branch = b\<rparr>
      | _ \<Rightarrow> Inl (config_error directory target_format_text))"

definition resolve_commands :: "pydict \<Rightarrow> pyval" where
  "resolve_commands repo_data =
     (case map_of repo_data (PStr ''shell_command_after'') of
        None \<Rightarrow> PList []
      | Some cmds \<Rightarrow>
          if truthy cmds then (case cmds of PStr s \<Rightarrow> PList [cmds] | _ \<Rightarrow> cmds)
          else PList [])"

subsection \<open>One directory (the body of the loop, lines 30 to 168)\<close>

text \<open>The result is the specification or the exception, the value of the directory in
  the configuration afterwards, and the events.\<close>

definition resolve_directory ::
  "env \<Rightarrow> bool \<Rightarrow> bool \<Rightarrow> event list \<Rightarrow> pyval \<Rightarrow> pyval
    \<Rightarrow> (py_exn + repo_spec) \<times> pyval \<times> event list" where
  "resolve_directory E force_flag skip_merge_check evs key val =
     (case key of
        PStr d \<Rightarrow>
          (let directory = (if isabs E d then d else abspath E d) in
           case val of
             PDict repo_data \<Rightarrow>
               (case resolve_remotes E evs directory repo_data of
                  (Inl e, evs1) \<Rightarrow> (Inl e, val, evs1)
                | (Inr rs, evs1) \<Rightarrow>
                    (case resolve_merges E skip_merge_check evs1 directory rs repo_data of
                       (Inl e, repo_data', evs2) \<Rightarrow> (Inl e, PDict repo_data', evs2)
                     | (Inr ms, repo_data', evs2) \<Rightarrow>
                         (case normalize_fetch_all repo_data' of
                            Inl e \<Rightarrow> (Inl e, PDict repo_data', evs2)
                          | Inr fa \<Rightarrow>
                              (case resolve_target E directory (map name rs) repo_data' of
                                 Inl e \<Rightarrow> (Inl e, PDict repo_data', evs2)
                               | Inr tg \<Rightarrow>
                                   (Inr \<lparr>cwd = directory,
                                         defaults = dict_get repo_data ''defaults'' (PDict []),
                                         force = force_flag,
                                         skip_dry_run = dict_get repo_data ''skip_dry_run'' (PBool False),
                                         apply_patch = dict_get repo_data ''apply_patch'' (PBool False),
                                         skip_repo_init = dict_get repo_data ''skip_repo_init'' (PBool False),
                                         remotes = rs,
                                         merges = ms,
                                         fetch_all = fa,
                                         target = tg,
                                         shell_command_after = resolve_commands repo_data'\<rparr>,
                                    PDict repo_data', evs2)))))
           | _ \<Rightarrow> (Inl AttributeError, val, evs))
      | _ \<Rightarrow> (Inl TypeError, val, evs))"

subsection \<open>All directories\<close>

record outcome =
  result :: "py_exn + repo_spec list"
  config_after :: pydict
  trace :: "event list"

text \<open>The loop of line 29. The state is \<^verbatim>\<open>repo_list\<close>, the directories already
  visited as they are now in the configuration, and the events.\<close>

fun repos_loop ::
  "env \<Rightarrow> bool \<Rightarrow> bool \<Rightarrow> pydict \<Rightarrow> repo_spec list \<times> pydict \<times> event list \<Rightarrow> outcome" where
  "repos_loop E force_flag skip_merge_check [] (repo_list, visited, evs) =
     \<lparr>result = Inr repo_list, config_after = visited, trace = evs\<rparr>"
| "repos_loop E force_flag skip_merge_check ((key, val) # rest) (repo_list, visited, evs) =
     (case resolve_directory E force_flag skip_merge_check evs key val of
        (Inl e, val', evs') \<Rightarrow>
          \<lparr>result = Inl e, config_after = visited @ (key, val') # rest, trace = evs'\<rparr>
      | (Inr repo_dict, val', evs') \<Rightarrow>
          repos_loop E force_flag skip_merge_check rest
            (repo_list @ [repo_dict], visited @ [(key, val')], evs'))"

definition get_repos :: "env \<Rightarrow> pydict \<Rightarrow> bool \<Rightarrow> bool \<Rightarrow> outcome" where
  "get_repos E config force_flag skip_merge_check =
     repos_loop E force_flag skip_merge_check config ([], [], [])"

section \<open>Predicates and sample inputs of the properties\<close>

text \<open>The foreign keys of a specification: the remote of every merge and the remote of
  the target, when it has one, are names of the list of remotes.\<close>

definition merge_remote_in :: "pyval list \<Rightarrow> pydict \<Rightarrow> bool" where
  "merge_remote_in remote_names m =
     (case map_of m (PStr ''remote'') of None \<Rightarrow> False | Some rm \<Rightarrow> rm \<in> set remote_names)"

definition foreign_keys_ok :: "repo_spec \<Rightarrow> bool" where
  "foreign_keys_ok spec =
     ((\<forall>m \<in> set (merges spec). merge_remote_in (map name (remotes spec)) m)
      \<and> (case remote (target spec) of
           None \<Rightarrow> True
         | Some rm \<Rightarrow> PStr rm \<in> set (map name (remotes spec))))"

text \<open>What a run may write into the configuration: in a merge entry that is a dict, the
  value under \<^verbatim>\<open>remote\<close>, or the values under \<^verbatim>\<open>remote\<close> and \<^verbatim>\<open>ref\<close>, replaced by their
  text. \<open>entry_after E merge merge'\<close> says that \<open>merge'\<close> is \<open>merge\<close> or \<open>merge\<close> after such a
  write; \<open>value_after\<close> says the same of the value of a directory, whose list of merges
  is the only part written to.\<close>

definition coerce_key :: "env \<Rightarrow> string \<Rightarrow> pydict \<Rightarrow> pydict" where
  "coerce_key E k m =
     (case map_of m (PStr k) of None \<Rightarrow> m | Some v \<Rightarrow> dict_set m (PStr k) (PStr (py_str E v)))"

definition entry_after :: "env \<Rightarrow> pyval \<Rightarrow> pyval \<Rightarrow> bool" where
  "entry_after E merge merge' =
     (merge' = merge \<or>
      (case merge of
         PDict m \<Rightarrow>
           merge' = PDict (coerce_key E ''remote'' m) \<or>
           merge' = PDict (coerce_key E ''ref'' (coerce_key E ''remote'' m))
       | _ \<Rightarrow> False))"

fun merge_entries :: "pyval \<Rightarrow> pyval list option" where
  "merge_entries (PDict repo_data) =
     (case map_of repo_data (PStr ''merges'') of Some (PList xs) \<Rightarrow> Some xs | _ \<Rightarrow> None)"
| "merge_entries _ = None"

fun with_merge_entries :: "pyval \<Rightarrow> pyval list \<Rightarrow> pyval" where
  "with_merge_entries (PDict repo_data) xs = PDict (dict_set repo_data (PStr ''merges'') (PList xs))"
| "with_merge_entries v xs = v"

definition value_after :: "env \<Rightarrow> pyval \<Rightarrow> pyval \<Rightarrow> bool" where
  "value_after E val val' =
     (val' = val \<or>
      (case (merge_entries val, merge_entries val') of
         (Some xs, Some xs') \<Rightarrow> list_all2 (entry_after E) xs xs' \<and> val' = with_merge_entries val xs'
       | _ \<Rightarrow> False))"

definition config_after_run :: "env \<Rightarrow> pydict \<Rightarrow> pydict \<Rightarrow> bool" where
  "config_after_run E config config' =
     list_all2 (\<lambda>(key, val) (key', val'). key' = key \<and> value_after E val val') config config'"

text \<open>A merge entry is textual when it is not a dict or its values under \<^verbatim>\<open>remote\<close> and
  \<^verbatim>\<open>ref\<close>, where it has them, are strings.\<close>

fun is_text :: "pyval option \<Rightarrow> bool" where
  "is_text (Some (PStr s)) = True"
| "is_text (Some v) = False"
| "is_text None = True"

fun textual_entry :: "pyval \<Rightarrow> bool" where
  "textual_entry (PDict m) = (is_text (map_of m (PStr ''remote'')) \<and> is_text (map_of m (PStr ''ref'')))"
| "textual_entry v = True"

definition textual_merges :: "pydict \<Rightarrow> bool" where
  "textual_merges config =
     list_all (\<lambda>(key, val). case merge_entries val of None \<Rightarrow> True | Some xs \<Rightarrow> list_all textual_entry xs)
       config"

text \<open>The events a run may record: a ref is queried only when the merge check is not
  skipped and the \<^verbatim>\<open>Repo\<close> object is true, a remote is set only when the merge check is
  not skipped and the directory exists.\<close>

fun event_allowed :: "env \<Rightarrow> bool \<Rightarrow> event \<Rightarrow> bool" where
  "event_allowed E skip_merge_check (QueryRemoteRef directory rm rf) =
     (\<not> skip_merge_check \<and> repo_truth E directory)"
| "event_allowed E skip_merge_check (SetRemote directory n u) =
     (\<not> skip_merge_check \<and> path_exists E directory)"
| "event_allowed E skip_merge_check (LogWarning w) = (\<not> skip_merge_check)"
| "event_allowed E skip_merge_check (LogException x) = (\<not> skip_merge_check)"
| "event_allowed E skip_merge_check (GetRemotes directory) = True"

text \<open>The fetch scope that the value of a directory asks for.\<close>

definition fetch_all_of :: "pyval \<Rightarrow> fetch_scope" where
  "fetch_all_of val =
     (case val of
        PDict repo_data \<Rightarrow>
          (case map_of repo_data (PStr ''fetch_all'') of
             None \<Rightarrow> FetchValue (PBool False)
           | Some (PStr s) \<Rightarrow> FetchSet {PStr s}
           | Some (PList xs) \<Rightarrow> FetchSet (set (map hash_key xs))
           | Some v \<Rightarrow> FetchValue v)
      | _ \<Rightarrow> FetchValue (PBool False))"

text \<open>The shape of a configuration that the documentation describes: the directories are
  strings, their values are dicts, \<^verbatim>\<open>remotes\<close> is a dict (or empty), \<^verbatim>\<open>merges\<close> can be
  iterated and holds strings and dicts (or is empty), and a list under \<^verbatim>\<open>fetch_all\<close>
  holds nothing unhashable.\<close>

fun merge_shape_ok :: "pyval \<Rightarrow> bool" where
  "merge_shape_ok (PStr s) = True"
| "merge_shape_ok (PDict m) = True"
| "merge_shape_ok v = False"

fun is_dict :: "pyval \<Rightarrow> bool" where
  "is_dict (PDict d) = True"
| "is_dict v = False"

definition repo_data_shape_ok :: "pydict \<Rightarrow> bool" where
  "repo_data_shape_ok repo_data =
     ((case map_of repo_data (PStr ''remotes'') of
         None \<Rightarrow> True
       | Some v \<Rightarrow> is_dict (if truthy v then v else PDict []))
      \<and> (case map_of repo_data (PStr ''merges'') of
           None \<Rightarrow> True
         | Some v \<Rightarrow>
             (case py_iter (if truthy v then v else PList []) of
                Inl e \<Rightarrow> False
              | Inr xs \<Rightarrow> list_all merge_shape_ok xs))
      \<and> (case map_of repo_data (PStr ''fetch_all'') of
           Some (PList xs) \<Rightarrow> \<not> list_ex unhashable xs
         | _ \<Rightarrow> True))"

fun directory_shape_ok :: "pyval \<times> pyval \<Rightarrow> bool" where
  "directory_shape_ok (PStr d, PDict repo_data) = repo_data_shape_ok repo_data"
| "directory_shape_ok (key, val) = False"

definition well_shaped :: "pydict \<Rightarrow> bool" where
  "well_shaped config = list_all directory_shape_ok config"

definition set_remote_quiet :: "env \<Rightarrow> bool" where
  "set_remote_quiet E = (\<forall>evs directory n u. set_remote E evs directory n u = None)"

text \<open>The message of a configuration error starts with the absolute path of one of
  the directories, followed by a colon.\<close>

definition starts_with_path :: "string \<Rightarrow> string \<Rightarrow> bool" where
  "starts_with_path directory msg = (take (length directory + 2) msg = directory @ '': '')"

fun names_directory :: "env \<Rightarrow> string \<Rightarrow> pyval \<times> pyval \<Rightarrow> bool" where
  "names_directory E msg (PStr d, val) =
     starts_with_path (if isabs E d then d else abspath E d) msg"
| "names_directory E msg (key, val) = False"

fun is_config_error :: "py_exn \<Rightarrow> bool" where
  "is_config_error (ConfigException msg) = True"
| "is_config_error e = False"

text \<open>An exception that comes from the handling of the input, not from the git layer.\<close>

fun input_error :: "py_exn \<Rightarrow> bool" where
  "input_error (Raised x) = False"
| "input_error e = True"

text \<open>An exception is in order for a directory when it is not a configuration error or
  its message starts with the path of the directory.\<close>

fun error_names_path :: "string \<Rightarrow> py_exn \<Rightarrow> bool" where
  "error_names_path directory (ConfigException msg) = starts_with_path directory msg"
| "error_names_path directory e = True"

text \<open>A configuration of one directory with the key \<^verbatim>\<open>remotes\<close> and one merge.\<close>

definition one_merge_config :: "string \<Rightarrow> pyval \<Rightarrow> pyval \<Rightarrow> pydict" where
  "one_merge_config d remotes_value merge =
     [(PStr d, PDict [(PStr ''remotes'', remotes_value), (PStr ''merges'', PList [merge])])]"

text \<open>A sample environment: POSIX paths, a process in \<^verbatim>\<open>/work\<close>, no working copy on
  disk, a \<^verbatim>\<open>Repo\<close> object that is true as every plain Python object, and a remote that
  has the branch \<^verbatim>\<open>14.0\<close>, fails on the ref \<^verbatim>\<open>flaky\<close> and has no other ref.\<close>

definition posix_isabs :: "string \<Rightarrow> bool" where
  "posix_isabs p = (case p of [] \<Rightarrow> False | c # cs \<Rightarrow> c = CHR ''/'')"

definition sample_query :: "event list \<Rightarrow> string \<Rightarrow> string \<Rightarrow> string \<Rightarrow> query_result" where
  "sample_query evs directory rm rf =
     (if rf = ''14.0'' then Returns (Some ''branch'')
      else if rf = ''flaky'' then Raises ''timeout''
      else Returns None)"

definition sample_env :: env where
  "sample_env =
     \<lparr>isabs = posix_isabs,
      abspath = (\<lambda>p. ''/work/'' @ p),
      path_exists = (\<lambda>p. False),
      repo_truth = (\<lambda>p. True),
      get_remotes = (\<lambda>evs p. None),
      set_remote = (\<lambda>evs p n u. None),
      query_remote_ref = sample_query,
      ishex = (\<lambda>s. list_all (\<lambda>c. c \<in> set ''0123456789abcdefABCDEF'') s),
      str_container = (\<lambda>v. ''[...]'')\<rparr>"

text \<open>The sample environment with every directory on disk and a \<^verbatim>\<open>_set_remote\<close> that
  raises.\<close>

definition failing_env :: env where
  "failing_env =
     sample_env\<lparr>path_exists := (\<lambda>p. True), set_remote := (\<lambda>evs p n u. Some ''git failed'')\<rparr>"

section \<open>Properties\<close>

subsection \<open>Unfolding one directory, and facts about dicts\<close>

lemmas resolve_unfold =
  get_repos_def resolve_directory_def resolve_remotes_def resolve_merges_def parse_merge_def
  normalize_fetch_all_def resolve_target_def resolve_commands_def dict_get_def write_back_def

lemma map_of_dict_set: "map_of (dict_set d k v) = (map_of d)(k \<mapsto> v)"
  by (induction d k v rule: dict_set.induct) auto

text \<open>Resolving the merges writes under the key \<^verbatim>\<open>merges\<close> only.\<close>

lemma write_back_other_key:
  "k \<noteq> PStr ''merges'' \<Longrightarrow> map_of (write_back repo_data v visited) k = map_of repo_data k"
  by (simp add: write_back_def map_of_dict_set split: pyval.splits)

lemma resolve_merges_other_key:
  "resolve_merges E smc evs directory rs repo_data = (r, repo_data', evs') \<Longrightarrow>
   k \<noteq> PStr ''merges'' \<Longrightarrow> map_of repo_data' k = map_of repo_data k"
  by (auto simp: resolve_merges_def write_back_other_key
           split: option.splits prod.splits sum.splits if_splits)

subsection \<open>The empty and the minimal configuration\<close>

text \<open>C10: for the empty configuration, get\_repos returns the empty list and raises
  nothing, whatever the two flags are (and nothing is written or called).\<close>

theorem get_repos_empty:
  "get_repos E [] force_flag skip_merge_check = \<lparr>result = Inr [], config_after = [], trace = []\<rparr>"
  by (simp add: get_repos_def)

text \<open>C3: the configuration of one directory \<open>d\<close> with the remotes
  \<^verbatim>\<open>{origin: "u"}\<close>, the merges \<^verbatim>\<open>["origin 14.0"]\<close> and no target, resolved with
  skip\_merge\_check true, gives exactly one specification: its remotes are
  \<^verbatim>\<open>[{name: origin, url: u}]\<close>, its merges \<^verbatim>\<open>[{remote: origin, ref: "14.0"}]\<close>, its target
  has no remote and the branch \<^verbatim>\<open>_git_aggregated\<close>, fetch\_all is false and
  shell\_command\_after is the empty list (the other fields have their defaults).\<close>

theorem minimal_config_resolves:
  "result (get_repos E
     [(PStr d, PDict [(PStr ''remotes'', PDict [(PStr ''origin'', PStr ''u'')]),
                      (PStr ''merges'', PList [PStr ''origin 14.0''])])] force_flag True)
   = Inr [\<lparr>cwd = (if isabs E d then d else abspath E d),
            defaults = PDict [], force = force_flag,
            skip_dry_run = PBool False, apply_patch = PBool False,
            skip_repo_init = PBool False,
            remotes = [\<lparr>name = PStr ''origin'', url = PStr ''u''\<rparr>],
            merges = [[(PStr ''remote'', PStr ''origin''), (PStr ''ref'', PStr ''14.0'')]],
            fetch_all = FetchValue (PBool False),
            target = \<lparr>remote = None, branch = ''_git_aggregated''\<rparr>,
            shell_command_after = PList []\<rparr>]"
  by (simp add: resolve_unfold)

text \<open>C9: with skip\_merge\_check true, the merge entry \<^verbatim>\<open>"origin 14.0"\<close> and the merge
  entry \<^verbatim>\<open>{remote: origin, ref: "14.0"}\<close> give the same result, whatever the remotes of
  the directory are; with the remote \<^verbatim>\<open>origin\<close> defined, both give the list of merges
  \<^verbatim>\<open>[{remote: origin, ref: "14.0"}]\<close>.\<close>

theorem merge_shapes_agree:
  "result (get_repos E (one_merge_config d remotes_value (PStr ''origin 14.0'')) force_flag True)
     = result (get_repos E (one_merge_config d remotes_value
         (PDict [(PStr ''remote'', PStr ''origin''), (PStr ''ref'', PStr ''14.0'')])) force_flag True)
   \<and> map_sum id (map merges)
       (result (get_repos E (one_merge_config d (PDict [(PStr ''origin'', PStr ''u'')])
          (PStr ''origin 14.0'')) force_flag True))
     = Inr [[[(PStr ''remote'', PStr ''origin''), (PStr ''ref'', PStr ''14.0'')]]]
   \<and> map_sum id (map merges)
       (result (get_repos E (one_merge_config d (PDict [(PStr ''origin'', PStr ''u'')])
          (PDict [(PStr ''remote'', PStr ''origin''), (PStr ''ref'', PStr ''14.0'')])) force_flag True))
     = Inr [[[(PStr ''remote'', PStr ''origin''), (PStr ''ref'', PStr ''14.0'')]]]"
proof (intro conjI)
  show "result (get_repos E (one_merge_config d remotes_value (PStr ''origin 14.0'')) force_flag True)
     = result (get_repos E (one_merge_config d remotes_value
         (PDict [(PStr ''remote'', PStr ''origin''), (PStr ''ref'', PStr ''14.0'')])) force_flag True)"
    by (simp add: resolve_unfold one_merge_config_def Let_def
             split: prod.splits sum.splits option.splits pyval.splits)
qed (simp_all add: resolve_unfold one_merge_config_def Let_def)

subsection \<open>Foreign keys\<close>

lemma parse_merge_remote:
  "parse_merge E directory merge = (Inr (rm, rf, m), merge') \<Longrightarrow>
     map_of m (PStr ''remote'') = Some (PStr rm)"
  by (auto simp: parse_merge_def map_of_dict_set Let_def
           split: pyval.splits list.splits option.splits)

lemma merges_loop_remote:
  "merges_loop E smc directory names xs (ms, visited, evs) = (err, ms', visited', evs') \<Longrightarrow>
   list_all (merge_remote_in names) ms \<Longrightarrow> list_all (merge_remote_in names) ms'"
proof (induction xs arbitrary: ms visited evs)
  case Nil
  then show ?case by simp
next
  case (Cons x xs)
  show ?case
  proof (cases "parse_merge E directory x")
    case (Pair r merge')
    show ?thesis
    proof (cases r)
      case (Inl e)
      with Cons.prems Pair show ?thesis by simp
    next
      case (Inr t)
      obtain rm rf m where t: "t = (rm, rf, m)" by (cases t)
      have pm: "parse_merge E directory x = (Inr (rm, rf, m), merge')"
        using Pair Inr t by simp
      show ?thesis
      proof (cases "PStr rm \<in> set names")
        case False
        with Cons.prems pm show ?thesis by simp
      next
        case True
        have "merge_remote_in names m"
          using parse_merge_remote[OF pm] True by (simp add: merge_remote_in_def)
        then have ext: "list_all (merge_remote_in names) (ms @ [m])"
          using Cons.prems(2) by simp
        from Cons.prems(1) pm True show ?thesis
          by (auto simp: Let_def split: if_splits query_result.splits
                   intro: Cons.IH[OF _ ext] Cons.IH[OF _ Cons.prems(2)])
      qed
    qed
  qed
qed

lemma resolve_merges_remote:
  "resolve_merges E smc evs directory rs repo_data = (Inr ms, repo_data', evs') \<Longrightarrow>
   list_all (merge_remote_in (map name rs)) ms"
  by (auto simp: resolve_merges_def split: option.splits prod.splits sum.splits if_splits
           dest!: merges_loop_remote)

lemma resolve_target_remote:
  "resolve_target E directory names repo_data = Inr tg \<Longrightarrow>
   (case remote tg of None \<Rightarrow> True | Some rm \<Rightarrow> PStr rm \<in> set names)"
  by (auto simp: resolve_target_def split: list.splits if_splits)

lemma resolve_directory_foreign_keys:
  "resolve_directory E frc smc evs key val = (Inr spec, val', evs') \<Longrightarrow> foreign_keys_ok spec"
  apply (auto simp: resolve_directory_def Let_def foreign_keys_ok_def
           split: pyval.splits prod.splits sum.splits
           dest!: resolve_merges_remote resolve_target_remote)
   apply (auto simp: list_all_iff merge_remote_in_def split: option.splits)
  done

text \<open>What holds of every specification that one directory resolves to holds of every
  specification of the list returned.\<close>

lemma repos_loop_all:
  assumes step: "\<And>evs key val spec val' evs'.
      resolve_directory E frc smc evs key val = (Inr spec, val', evs') \<Longrightarrow> P spec"
  shows "result (repos_loop E frc smc config (repo_list, visited, evs)) = Inr specs \<Longrightarrow>
   list_all P repo_list \<Longrightarrow> list_all P specs"
proof (induction config arbitrary: repo_list visited evs)
  case Nil
  then show ?case by simp
next
  case (Cons kv config)
  obtain key val where kv: "kv = (key, val)" by (cases kv)
  from Cons.prems show ?case
    by (auto simp: kv split: prod.splits sum.splits dest: step intro!: Cons.IH)
qed

text \<open>C1: when get\_repos returns, every specification of the list satisfies the
  foreign-key invariant: the remote of each of its merges is one of the names of its
  remotes, and so is the remote of its target when the target has one.\<close>

theorem returned_specs_keep_foreign_keys:
  "result (get_repos E config force_flag skip_merge_check) = Inr specs \<Longrightarrow>
     \<forall>spec \<in> set specs. foreign_keys_ok spec"
  using repos_loop_all[of E force_flag skip_merge_check foreign_keys_ok config "[]" "[]" "[]" specs]
  by (simp add: get_repos_def resolve_directory_foreign_keys list_all_iff)

theorem returned_specs_keep_foreign_keys_witness:
  "\<exists>spec. result (get_repos sample_env
       [(PStr ''D'', PDict [(PStr ''remotes'', PDict [(PStr ''origin'', PStr ''u'')]),
                           (PStr ''merges'', PList [PStr ''origin 14.0'']),
                           (PStr ''target'', PStr ''origin main'')])] False True) = Inr [spec]
     \<and> remote (target spec) = Some ''origin''
     \<and> foreign_keys_ok spec"
proof -
  let ?config = "[(PStr ''D'', PDict [(PStr ''remotes'', PDict [(PStr ''origin'', PStr ''u'')]),
                           (PStr ''merges'', PList [PStr ''origin 14.0'']),
                           (PStr ''target'', PStr ''origin main'')])]"
  obtain spec where run: "result (get_repos sample_env ?config False True) = Inr [spec]"
    and tg: "remote (target spec) = Some ''origin''"
    by (simp add: resolve_unfold is_space_def)
  from returned_specs_keep_foreign_keys[OF run] have "foreign_keys_ok spec" by simp
  with run tg show ?thesis by blast
qed

subsection \<open>The first failing directory ends the run\<close>

lemma repos_loop_append:
  "repos_loop E frc smc (xs @ ys) st =
     (case result (repos_loop E frc smc xs st) of
        Inl e \<Rightarrow> \<lparr>result = Inl e,
                  config_after = config_after (repos_loop E frc smc xs st) @ ys,
                  trace = trace (repos_loop E frc smc xs st)\<rparr>
      | Inr specs \<Rightarrow> repos_loop E frc smc ys
          (specs, config_after (repos_loop E frc smc xs st), trace (repos_loop E frc smc xs st)))"
proof (induction xs arbitrary: st)
  case Nil
  obtain a b c where "st = (a, b, c)" by (cases st)
  then show ?case by simp
next
  case (Cons kv xs)
  obtain a b c where st: "st = (a, b, c)" by (cases st)
  obtain key val where kv: "kv = (key, val)" by (cases kv)
  show ?case
    by (simp add: st kv Cons.IH split: prod.splits sum.splits)
qed

text \<open>C2: when the directories \<open>before\<close> resolve and the next directory raises \<open>e\<close>,
  get\_repos raises \<open>e\<close> and returns no list; the directories \<open>rest\<close> after the failing
  one are not processed: they are in the configuration as they were, and the events are
  those up to the failure, whatever \<open>rest\<close> holds.\<close>

theorem fail_fast:
  assumes "get_repos E before force_flag skip_merge_check =
             \<lparr>result = Inr specs, config_after = before', trace = evs\<rparr>"
    and "resolve_directory E force_flag skip_merge_check evs key val = (Inl e, val', evs')"
  shows "get_repos E (before @ (key, val) # rest) force_flag skip_merge_check =
           \<lparr>result = Inl e, config_after = before' @ (key, val') # rest, trace = evs'\<rparr>"
  using assms by (simp add: get_repos_def repos_loop_append)

theorem fail_fast_witness:
  "get_repos sample_env
     [(PStr ''/a'', PDict [(PStr ''remotes'', PDict [(PStr ''origin'', PStr ''u'')]),
                          (PStr ''merges'', PList [PStr ''origin 14.0''])]),
      (PStr ''b'', PDict [(PStr ''remotes'', PDict [(PStr ''origin'', PStr ''u'')])]),
      (PStr ''c'', PDict [])] False False
   = \<lparr>result = Inl (ConfigException ''/work/b: merges is not defined.''),
      config_after =
        [(PStr ''/a'', PDict [(PStr ''remotes'', PDict [(PStr ''origin'', PStr ''u'')]),
                             (PStr ''merges'', PList [PStr ''origin 14.0''])]),
         (PStr ''b'', PDict [(PStr ''remotes'', PDict [(PStr ''origin'', PStr ''u'')])]),
         (PStr ''c'', PDict [])],
      trace = [QueryRemoteRef ''/a'' ''origin'' ''14.0'']\<rparr>"
proof -
  have first: "\<exists>specs. get_repos sample_env
      [(PStr ''/a'', PDict [(PStr ''remotes'', PDict [(PStr ''origin'', PStr ''u'')]),
                           (PStr ''merges'', PList [PStr ''origin 14.0''])])] False False
    = \<lparr>result = Inr specs,
       config_after = [(PStr ''/a'', PDict [(PStr ''remotes'', PDict [(PStr ''origin'', PStr ''u'')]),
                           (PStr ''merges'', PList [PStr ''origin 14.0''])])],
       trace = [QueryRemoteRef ''/a'' ''origin'' ''14.0'']\<rparr>"
    by (simp add: resolve_unfold sample_env_def sample_query_def posix_isabs_def Let_def)
  have second: "resolve_directory sample_env False False [QueryRemoteRef ''/a'' ''origin'' ''14.0'']
      (PStr ''b'') (PDict [(PStr ''remotes'', PDict [(PStr ''origin'', PStr ''u'')])])
    = (Inl (ConfigException ''/work/b: merges is not defined.''),
       PDict [(PStr ''remotes'', PDict [(PStr ''origin'', PStr ''u'')])],
       [QueryRemoteRef ''/a'' ''origin'' ''14.0''])"
    by (simp add: resolve_unfold sample_env_def posix_isabs_def config_error_def)
  from first obtain specs where a: "get_repos sample_env
      [(PStr ''/a'', PDict [(PStr ''remotes'', PDict [(PStr ''origin'', PStr ''u'')]),
                           (PStr ''merges'', PList [PStr ''origin 14.0''])])] False False
    = \<lparr>result = Inr specs,
       config_after = [(PStr ''/a'', PDict [(PStr ''remotes'', PDict [(PStr ''origin'', PStr ''u'')]),
                           (PStr ''merges'', PList [PStr ''origin 14.0''])])],
       trace = [QueryRemoteRef ''/a'' ''origin'' ''14.0'']\<rparr>" by blast
  show ?thesis
    using fail_fast[OF a second, of "[(PStr ''c'', PDict [])]"] by simp
qed

subsection \<open>The check of a merge against the remote\<close>



subsection \<open>What a run writes into its input\<close>

lemma dict_set_same: "map_of d k = Some v \<Longrightarrow> dict_set d k v = d"
  by (induction d k v rule: dict_set.induct) (auto split: if_splits)

lemma parse_merge_entry_after:
  "parse_merge E directory merge = (r, merge') \<Longrightarrow> entry_after E merge merge'"
  by (auto simp: parse_merge_def entry_after_def coerce_key_def Let_def map_of_dict_set
           split: pyval.splits list.splits option.splits)

lemma merges_loop_visited:
  "merges_loop E smc directory names xs (ms, visited, evs) = (err, ms', visited', evs') \<Longrightarrow>
   \<exists>ys. visited' = visited @ ys \<and> list_all2 (entry_after E) xs ys"
proof (induction xs arbitrary: ms visited evs)
  case Nil
  then show ?case by simp
next
  case (Cons x xs)
  obtain r merge' where pm: "parse_merge E directory x = (r, merge')"
    by (cases "parse_merge E directory x")
  have ea: "entry_after E x merge'" using parse_merge_entry_after[OF pm] .
  have refl: "list_all2 (entry_after E) xs xs"
    by (simp add: list_all2_refl entry_after_def)
  have stop: "\<exists>ys. visited @ merge' # xs = visited @ ys \<and> list_all2 (entry_after E) (x # xs) ys"
    using ea refl by simp
  have cont: "\<exists>ys. visited' = visited @ ys \<and> list_all2 (entry_after E) (x # xs) ys"
    if "merges_loop E s directory names xs (ms2, visited @ [merge'], evs2)
          = (err, ms', visited', evs')" and "s = smc" for s ms2 evs2
  proof -
    from Cons.IH[of ms2 "visited @ [merge']" evs2] that obtain ys where "visited' = (visited @ [merge']) @ ys"
      and "list_all2 (entry_after E) xs ys" by blast
    then show ?thesis using ea by simp
  qed
  show ?case
  proof (cases r)
    case (Inl e)
    with Cons.prems pm stop show ?thesis by auto
  next
    case (Inr t)
    obtain rm rf m where t: "t = (rm, rf, m)" by (cases t)
    from Cons.prems pm Inr t stop show ?thesis
      by (auto simp: Let_def split: if_splits query_result.splits intro: cont)
  qed
qed

lemma resolve_merges_value_after:
  "resolve_merges E smc evs directory rs repo_data = (r, repo_data', evs') \<Longrightarrow>
   value_after E (PDict repo_data) (PDict repo_data')"
  apply (auto simp: resolve_merges_def value_after_def write_back_def map_of_dict_set
           split: option.splits prod.splits sum.splits if_splits pyval.splits
           dest!: merges_loop_visited)
  done


lemma value_after_refl: "value_after E val val"
  by (simp add: value_after_def)

lemma resolve_directory_value_after:
  "resolve_directory E frc smc evs key val = (r, val', evs') \<Longrightarrow> value_after E val val'"
  by (auto simp: resolve_directory_def Let_def value_after_refl
           split: pyval.splits prod.splits sum.splits
           dest: resolve_merges_value_after)

lemma repos_loop_config_after:
  "\<exists>ys. config_after (repos_loop E frc smc config (repo_list, visited, evs)) = visited @ ys
        \<and> config_after_run E config ys"
proof (induction config arbitrary: repo_list visited evs)
  case Nil
  show ?case by (simp add: config_after_run_def)
next
  case (Cons kv config)
  obtain key val where kv: "kv = (key, val)" by (cases kv)
  obtain r val' evs' where rd: "resolve_directory E frc smc evs key val = (r, val', evs')"
    by (cases "resolve_directory E frc smc evs key val")
  have va: "value_after E val val'" using resolve_directory_value_after[OF rd] .
  have refl: "config_after_run E config config"
    by (simp add: config_after_run_def list_all2_refl value_after_refl split: prod.splits)
  show ?case
  proof (cases r)
    case (Inl e)
    then show ?thesis using rd va refl by (simp add: kv config_after_run_def)
  next
    case (Inr spec)
    from Cons.IH[of "repo_list @ [spec]" "visited @ [(key, val')]" evs']
    obtain ys where "config_after (repos_loop E frc smc config
        (repo_list @ [spec], visited @ [(key, val')], evs')) = (visited @ [(key, val')]) @ ys"
      and "config_after_run E config ys" by blast
    then show ?thesis using rd va Inr by (simp add: kv config_after_run_def)
  qed
qed

lemma entry_after_textual:
  "entry_after E merge merge' \<Longrightarrow> textual_entry merge \<Longrightarrow> merge' = merge"
proof (cases merge)
  case (PDict m)
  assume ea: "entry_after E merge merge'" and tx: "textual_entry merge"
  have c1: "coerce_key E ''remote'' m = m"
    using tx PDict
    by (cases "map_of m (PStr ''remote'')"; cases "the (map_of m (PStr ''remote''))")
       (auto simp: coerce_key_def dict_set_same)
  have c2: "coerce_key E ''ref'' m = m"
    using tx PDict
    by (cases "map_of m (PStr ''ref'')"; cases "the (map_of m (PStr ''ref''))")
       (auto simp: coerce_key_def dict_set_same)
  from ea show ?thesis by (auto simp: entry_after_def PDict c1 c2)
qed (auto simp: entry_after_def)

lemma entries_after_textual:
  "list_all2 (entry_after E) xs ys \<Longrightarrow> list_all textual_entry xs \<Longrightarrow> ys = xs"
  by (induction xs ys rule: list_all2_induct) (auto dest: entry_after_textual)

lemma with_merge_entries_same: "merge_entries val = Some xs \<Longrightarrow> with_merge_entries val xs = val"
  by (cases val) (auto simp: dict_set_same split: option.splits pyval.splits)

lemma value_after_textual:
  "value_after E val val' \<Longrightarrow>
   (case merge_entries val of None \<Rightarrow> True | Some xs \<Rightarrow> list_all textual_entry xs) \<Longrightarrow> val' = val"
  by (auto simp: value_after_def with_merge_entries_same split: option.splits
           dest!: entries_after_textual)

lemma config_after_textual:
  "config_after_run E config config' \<Longrightarrow> textual_merges config \<Longrightarrow> config' = config"
  unfolding config_after_run_def textual_merges_def
  by (induction config config' rule: list_all2_induct) (auto dest: value_after_textual)

text \<open>C5, amended: after get\_repos has run, whether it returned or raised, the
  configuration has the same directories in the same order, and the value of a directory
  differs from the input at most in merge entries that are dicts, where the value under
  \<^verbatim>\<open>remote\<close>, or the values under \<^verbatim>\<open>remote\<close> and \<^verbatim>\<open>ref\<close>, have been replaced by their
  text. When these values are strings in every such entry, the configuration and every
  value in it are unchanged.\<close>

theorem input_written_only_in_merges:
  "config_after_run E config (config_after (get_repos E config force_flag skip_merge_check))
   \<and> (textual_merges config \<longrightarrow>
        config_after (get_repos E config force_flag skip_merge_check) = config)"
proof -
  from repos_loop_config_after[of E force_flag skip_merge_check config "[]" "[]" "[]"]
  have run: "config_after_run E config (config_after (get_repos E config force_flag skip_merge_check))"
    by (auto simp: get_repos_def)
  then show ?thesis using config_after_textual by blast
qed

text \<open>C5 as stated fails: a merge entry \<^verbatim>\<open>{remote: origin, ref: 14}\<close> of the input holds
  the string \<^verbatim>\<open>"14"\<close> under \<^verbatim>\<open>ref\<close> after the run (lines 96 and 97 assign into the
  entry).\<close>

theorem input_mutated_counterexample:
  "config_after (get_repos sample_env
     (one_merge_config ''/d'' (PDict [(PStr ''origin'', PStr ''u'')])
        (PDict [(PStr ''remote'', PStr ''origin''), (PStr ''ref'', PInt 14)])) False True)
   = one_merge_config ''/d'' (PDict [(PStr ''origin'', PStr ''u'')])
        (PDict [(PStr ''remote'', PStr ''origin''), (PStr ''ref'', PStr ''14'')])
   \<and> one_merge_config ''/d'' (PDict [(PStr ''origin'', PStr ''u'')])
        (PDict [(PStr ''remote'', PStr ''origin''), (PStr ''ref'', PStr ''14'')])
     \<noteq> one_merge_config ''/d'' (PDict [(PStr ''origin'', PStr ''u'')])
        (PDict [(PStr ''remote'', PStr ''origin''), (PStr ''ref'', PInt 14)])"
  by (simp add: resolve_unfold one_merge_config_def Let_def sample_env_def posix_isabs_def
       str_int_def digit_char_def)

theorem input_written_only_in_merges_witness:
  "textual_merges (one_merge_config ''/d'' (PDict [(PStr ''origin'', PStr ''u'')])
        (PDict [(PStr ''remote'', PStr ''origin''), (PStr ''ref'', PStr ''14.0'')]))
   \<and> config_after (get_repos sample_env
        (one_merge_config ''/d'' (PDict [(PStr ''origin'', PStr ''u'')])
          (PDict [(PStr ''remote'', PStr ''origin''), (PStr ''ref'', PStr ''14.0'')])) False False)
     = one_merge_config ''/d'' (PDict [(PStr ''origin'', PStr ''u'')])
          (PDict [(PStr ''remote'', PStr ''origin''), (PStr ''ref'', PStr ''14.0'')])
   \<and> config_after_run sample_env
        (one_merge_config ''/d'' (PDict [(PStr ''origin'', PStr ''u'')])
          (PDict [(PStr ''remote'', PStr ''origin''), (PStr ''ref'', PInt 14)]))
        (config_after (get_repos sample_env
          (one_merge_config ''/d'' (PDict [(PStr ''origin'', PStr ''u'')])
            (PDict [(PStr ''remote'', PStr ''origin''), (PStr ''ref'', PInt 14)])) False True))"
proof -
  have tx: "textual_merges (one_merge_config ''/d'' (PDict [(PStr ''origin'', PStr ''u'')])
        (PDict [(PStr ''remote'', PStr ''origin''), (PStr ''ref'', PStr ''14.0'')]))"
    by (simp add: textual_merges_def one_merge_config_def)
  show ?thesis
    using tx
      input_written_only_in_merges[of sample_env
        "one_merge_config ''/d'' (PDict [(PStr ''origin'', PStr ''u'')])
          (PDict [(PStr ''remote'', PStr ''origin''), (PStr ''ref'', PStr ''14.0'')])" False False]
      input_written_only_in_merges[of sample_env
        "one_merge_config ''/d'' (PDict [(PStr ''origin'', PStr ''u'')])
          (PDict [(PStr ''remote'', PStr ''origin''), (PStr ''ref'', PInt 14)])" False True]
    by blast
qed

subsection \<open>When the git layer is called\<close>

lemma set_remotes_events:
  "set_remotes E directory rs evs = (err, evs') \<Longrightarrow> \<not> smc \<Longrightarrow> path_exists E directory \<Longrightarrow>
   list_all (event_allowed E smc) evs \<Longrightarrow> list_all (event_allowed E smc) evs'"
  by (induction rs arbitrary: evs) (auto split: option.splits)

lemma merges_loop_events:
  "merges_loop E smc directory names xs (ms, visited, evs) = (err, ms', visited', evs') \<Longrightarrow>
   list_all (event_allowed E smc) evs \<Longrightarrow> list_all (event_allowed E smc) evs'"
proof (induction xs arbitrary: ms visited evs)
  case Nil
  then show ?case by simp
next
  case (Cons x xs)
  obtain r merge' where pm: "parse_merge E directory x = (r, merge')"
    by (cases "parse_merge E directory x")
  have cont: "list_all (event_allowed E s) evs'"
    if "merges_loop E s directory names xs (ms2, visited2, evs2) = (err, ms', visited', evs')"
      and "s = smc" and "list_all (event_allowed E s) evs2" for s ms2 visited2 evs2
    using Cons.IH[of ms2 visited2 evs2] that by simp
  show ?case
  proof (cases r)
    case (Inl e)
    with Cons.prems pm show ?thesis by auto
  next
    case (Inr t)
    obtain rm rf m where t: "t = (rm, rf, m)" by (cases t)
    from Cons.prems pm Inr t show ?thesis
      by (auto simp: Let_def split: if_splits query_result.splits intro: cont)
  qed
qed

lemma resolve_remotes_events:
  "resolve_remotes E evs directory repo_data = (r, evs') \<Longrightarrow>
   list_all (event_allowed E smc) evs \<Longrightarrow> list_all (event_allowed E smc) evs'"
  by (auto simp: resolve_remotes_def split: option.splits pyval.splits sum.splits if_splits)

lemma resolve_merges_events:
  "resolve_merges E smc evs directory rs repo_data = (r, repo_data', evs') \<Longrightarrow>
   list_all (event_allowed E smc) evs \<Longrightarrow> list_all (event_allowed E smc) evs'"
  by (auto simp: resolve_merges_def split: option.splits prod.splits sum.splits if_splits
           dest: set_remotes_events merges_loop_events)

lemma resolve_directory_events:
  "resolve_directory E frc smc evs key val = (r, val', evs') \<Longrightarrow>
   list_all (event_allowed E smc) evs \<Longrightarrow> list_all (event_allowed E smc) evs'"
  by (auto simp: resolve_directory_def Let_def
           split: pyval.splits prod.splits sum.splits
           dest: resolve_remotes_events resolve_merges_events)

lemma repos_loop_events:
  "list_all (event_allowed E smc) evs \<Longrightarrow>
   list_all (event_allowed E smc) (trace (repos_loop E frc smc config (repo_list, visited, evs)))"
proof (induction config arbitrary: repo_list visited evs)
  case Nil
  then show ?case by simp
next
  case (Cons kv config)
  obtain key val where kv: "kv = (key, val)" by (cases kv)
  obtain r val' evs' where rd: "resolve_directory E frc smc evs key val = (r, val', evs')"
    by (cases "resolve_directory E frc smc evs key val")
  have "list_all (event_allowed E smc) evs'"
    using resolve_directory_events[OF rd Cons.prems] .
  then show ?case using rd Cons.IH by (cases r) (simp_all add: kv)
qed

text \<open>C6, amended: in every run, a ref is queried only when skip\_merge\_check is false
  and the \<^verbatim>\<open>Repo\<close> object of the directory is true, and a warning is logged only when
  skip\_merge\_check is false; that the working copy exists on disk is the condition of the
  calls of \<^verbatim>\<open>_set_remote\<close>: a remote is set only when skip\_merge\_check is false and the
  directory exists.\<close>

theorem calls_are_gated:
  "\<forall>ev \<in> set (trace (get_repos E config force_flag skip_merge_check)).
     event_allowed E skip_merge_check ev"
  using repos_loop_events[of E skip_merge_check "[]" force_flag config "[]" "[]"]
  by (simp add: get_repos_def list_all_iff)

text \<open>C6 as stated fails: with skip\_merge\_check false and a directory that does not
  exist on disk, the ref of the merge is queried all the same. Line 77 guards only the
  calls of \<^verbatim>\<open>_set_remote\<close>; line 107 tests the \<^verbatim>\<open>Repo\<close> object, which line 76 has
  built whether or not the directory exists.\<close>

theorem query_without_working_copy_counterexample:
  "\<not> path_exists sample_env ''/d''
   \<and> trace (get_repos sample_env
        (one_merge_config ''/d'' (PDict [(PStr ''origin'', PStr ''u'')]) (PStr ''origin 14.0''))
        False False)
     = [QueryRemoteRef ''/d'' ''origin'' ''14.0'']"
  by (simp add: resolve_unfold one_merge_config_def Let_def sample_env_def posix_isabs_def
       sample_query_def)

theorem calls_are_gated_witness:
  "trace (get_repos sample_env
        (one_merge_config ''/d'' (PDict [(PStr ''origin'', PStr ''u'')]) (PStr ''origin nope''))
        False False)
     = [QueryRemoteRef ''/d'' ''origin'' ''nope'',
        LogWarning ''/d - Ref: nope does not exists in remote origin'']
   \<and> event_allowed sample_env False (QueryRemoteRef ''/d'' ''origin'' ''nope'')
   \<and> trace (get_repos sample_env
        (one_merge_config ''/d'' (PDict [(PStr ''origin'', PStr ''u'')]) (PStr ''origin nope''))
        False True) = []"
proof -
  have tr: "trace (get_repos sample_env
        (one_merge_config ''/d'' (PDict [(PStr ''origin'', PStr ''u'')]) (PStr ''origin nope''))
        False False)
     = [QueryRemoteRef ''/d'' ''origin'' ''nope'',
        LogWarning ''/d - Ref: nope does not exists in remote origin'']"
    by (simp add: resolve_unfold one_merge_config_def Let_def sample_env_def posix_isabs_def
         sample_query_def ref_missing_text_def)
  have tr2: "trace (get_repos sample_env
        (one_merge_config ''/d'' (PDict [(PStr ''origin'', PStr ''u'')]) (PStr ''origin nope''))
        False True) = []"
    by (simp add: resolve_unfold one_merge_config_def Let_def sample_env_def posix_isabs_def)
  from calls_are_gated[of sample_env
        "one_merge_config ''/d'' (PDict [(PStr ''origin'', PStr ''u'')]) (PStr ''origin nope'')"
        False False] tr
  have "event_allowed sample_env False (QueryRemoteRef ''/d'' ''origin'' ''nope'')"
    by simp
  with tr tr2 show ?thesis by blast
qed

subsection \<open>The fetch scope\<close>

lemma normalize_fetch_all_of:
  "normalize_fetch_all repo_data' = Inr fa \<Longrightarrow>
   map_of repo_data' (PStr ''fetch_all'') = map_of repo_data (PStr ''fetch_all'') \<Longrightarrow>
   fa = fetch_all_of (PDict repo_data)"
  by (auto simp: normalize_fetch_all_def fetch_all_of_def dict_get_def
           split: option.splits pyval.splits if_splits)

lemma resolve_directory_fetch_all:
  "resolve_directory E frc smc evs key val = (Inr spec, val', evs') \<Longrightarrow>
   fetch_all spec = fetch_all_of val"
  by (auto simp: resolve_directory_def Let_def
           split: pyval.splits prod.splits sum.splits
           dest!: resolve_merges_other_key[where k="PStr ''fetch_all''"]
           dest: normalize_fetch_all_of)

lemma repos_loop_fetch_all:
  "result (repos_loop E frc smc config (repo_list, visited, evs)) = Inr specs \<Longrightarrow>
   \<exists>new. specs = repo_list @ new
        \<and> list_all2 (\<lambda>(key, val) spec. fetch_all spec = fetch_all_of val) config new"
proof (induction config arbitrary: repo_list visited evs)
  case Nil
  then show ?case by simp
next
  case (Cons kv config)
  obtain key val where kv: "kv = (key, val)" by (cases kv)
  obtain r val' evs' where rd: "resolve_directory E frc smc evs key val = (r, val', evs')"
    by (cases "resolve_directory E frc smc evs key val")
  show ?case
  proof (cases r)
    case (Inl e)
    with Cons.prems rd show ?thesis by (simp add: kv)
  next
    case (Inr spec)
    have fa: "fetch_all spec = fetch_all_of val"
      using resolve_directory_fetch_all rd Inr by blast
    from Cons.prems rd Inr
    have "result (repos_loop E frc smc config (repo_list @ [spec], visited @ [(key, val')], evs'))
            = Inr specs"
      by (simp add: kv)
    from Cons.IH[OF this] obtain new where "specs = (repo_list @ [spec]) @ new"
      and "list_all2 (\<lambda>(key, val) spec. fetch_all spec = fetch_all_of val) config new"
      by blast
    then show ?thesis using fa by (simp add: kv)
  qed
qed

text \<open>C7, amended: when get\_repos returns, the list has one specification for each
  directory, in the order of the configuration, and its fetch\_all is: false when the key
  is absent, the set of one element for a string, the set of the elements for a list, and
  any other value of the key as it is.\<close>

theorem fetch_all_follows_input:
  "result (get_repos E config force_flag skip_merge_check) = Inr specs \<Longrightarrow>
     list_all2 (\<lambda>(key, val) spec. fetch_all spec = fetch_all_of val) config specs"
  using repos_loop_fetch_all[of E force_flag skip_merge_check config "[]" "[]" "[]" specs]
  by (simp add: get_repos_def)

text \<open>C7 as stated fails: with \<^verbatim>\<open>fetch_all: true\<close> the specification returned holds the
  boolean true, which is neither false nor a set (lines 130 to 133 convert strings and
  lists only).\<close>

theorem fetch_all_true_counterexample:
  "map_sum id (map fetch_all)
     (result (get_repos sample_env
        [(PStr ''/d'', PDict [(PStr ''remotes'', PDict [(PStr ''origin'', PStr ''u'')]),
                             (PStr ''merges'', PList [PStr ''origin 14.0'']),
                             (PStr ''fetch_all'', PBool True)])] False True))
   = Inr [FetchValue (PBool True)]"
  by (simp add: resolve_unfold Let_def)

theorem fetch_all_follows_input_witness:
  "\<exists>spec. result (get_repos sample_env
        [(PStr ''/d'', PDict [(PStr ''remotes'', PDict [(PStr ''origin'', PStr ''u'')]),
                             (PStr ''merges'', PList [PStr ''origin 14.0'']),
                             (PStr ''fetch_all'', PList [PStr ''origin'', PBool True, PInt 1])])]
        False True) = Inr [spec]
     \<and> fetch_all spec = FetchSet {PStr ''origin'', PInt 1}"
proof -
  let ?config = "[(PStr ''/d'', PDict [(PStr ''remotes'', PDict [(PStr ''origin'', PStr ''u'')]),
                             (PStr ''merges'', PList [PStr ''origin 14.0'']),
                             (PStr ''fetch_all'', PList [PStr ''origin'', PBool True, PInt 1])])]"
  obtain spec where run: "result (get_repos sample_env ?config False True) = Inr [spec]"
    by (simp add: resolve_unfold Let_def)
  from fetch_all_follows_input[OF run]
  have "fetch_all spec = FetchSet {PStr ''origin'', PInt 1}"
    by (simp add: fetch_all_of_def)
  with run show ?thesis by blast
qed

subsection \<open>The exceptions of a run\<close>

lemma config_error_names_path [simp]: "error_names_path directory (config_error directory text)"
  by (simp add: config_error_def starts_with_path_def)

lemma config_error_is_config [simp]: "is_config_error (config_error directory text)"
  by (simp add: config_error_def)

lemma remotes_from_data_error:
  "remotes_from_data E directory items acc = Inl e \<Longrightarrow>
     error_names_path directory e \<and> is_config_error e"
  by (induction items arbitrary: acc) (auto split: if_splits)

lemma resolve_remotes_names_path:
  "resolve_remotes E evs directory repo_data = (Inl e, evs') \<Longrightarrow> error_names_path directory e"
  by (auto simp: resolve_remotes_def split: option.splits pyval.splits sum.splits if_splits
           dest: remotes_from_data_error)

lemma set_remotes_names_path:
  "set_remotes E directory rs evs = (Some e, evs') \<Longrightarrow> error_names_path directory e"
  by (induction rs arbitrary: evs) (auto split: option.splits)

lemma parse_merge_names_path:
  "parse_merge E directory merge = (Inl e, merge') \<Longrightarrow> error_names_path directory e"
  by (auto simp: parse_merge_def Let_def split: pyval.splits list.splits option.splits)

lemma merges_loop_names_path:
  "merges_loop E smc directory names xs (ms, visited, evs) = (Some e, ms', visited', evs') \<Longrightarrow>
   error_names_path directory e"
proof (induction xs arbitrary: ms visited evs)
  case Nil
  then show ?case by simp
next
  case (Cons x xs)
  obtain r merge' where pm: "parse_merge E directory x = (r, merge')"
    by (cases "parse_merge E directory x")
  have cont: "error_names_path directory e"
    if "merges_loop E s directory names xs (ms2, visited2, evs2) = (Some e, ms', visited', evs')"
      and "s = smc" for s ms2 visited2 evs2
    using Cons.IH[of ms2 visited2 evs2] that by simp
  show ?case
  proof (cases r)
    case (Inl e')
    with Cons.prems pm parse_merge_names_path[of E directory x e' merge'] show ?thesis by auto
  next
    case (Inr t)
    obtain rm rf m where t: "t = (rm, rf, m)" by (cases t)
    from Cons.prems pm Inr t show ?thesis
      by (auto simp: Let_def split: if_splits query_result.splits intro: cont)
  qed
qed

lemma py_iter_error: "py_iter v = Inl e \<Longrightarrow> e = TypeError"
  by (cases v) auto

lemma resolve_merges_names_path:
  "resolve_merges E smc evs directory rs repo_data = (Inl e, repo_data', evs') \<Longrightarrow>
   error_names_path directory e"
  by (auto simp: resolve_merges_def
           split: option.splits prod.splits sum.splits if_splits pyval.splits
           dest: set_remotes_names_path merges_loop_names_path py_iter_error)

lemma normalize_fetch_all_error: "normalize_fetch_all repo_data = Inl e \<Longrightarrow> e = TypeError"
  by (auto simp: normalize_fetch_all_def split: pyval.splits if_splits)

lemma resolve_target_error:
  "resolve_target E directory names repo_data = Inl e \<Longrightarrow>
     error_names_path directory e \<and> is_config_error e"
  by (auto simp: resolve_target_def split: list.splits if_splits)

lemma resolve_directory_names_directory:
  "resolve_directory E frc smc evs key val = (Inl (ConfigException msg), val', evs') \<Longrightarrow>
   names_directory E msg (key, val)"
  by (auto simp: resolve_directory_def Let_def
           split: pyval.splits prod.splits sum.splits
           dest: resolve_remotes_names_path resolve_merges_names_path
                 normalize_fetch_all_error
                 resolve_target_error)


lemma resolve_remotes_config_error:
  "resolve_remotes E evs directory repo_data = (Inl e, evs') \<Longrightarrow>
   repo_data_shape_ok repo_data \<Longrightarrow> is_config_error e"
  by (auto simp: resolve_remotes_def repo_data_shape_ok_def
           split: option.splits pyval.splits sum.splits if_splits
           dest: remotes_from_data_error)

lemma set_remotes_quiet:
  "set_remote_quiet E \<Longrightarrow> fst (set_remotes E directory rs evs) = None"
  by (induction rs arbitrary: evs) (auto simp: set_remote_quiet_def)

lemma parse_merge_config_error:
  "parse_merge E directory merge = (Inl e, merge') \<Longrightarrow> merge_shape_ok merge \<Longrightarrow>
   is_config_error e"
  by (auto simp: parse_merge_def Let_def split: pyval.splits list.splits option.splits)

lemma merges_loop_config_error:
  "merges_loop E smc directory names xs (ms, visited, evs) = (Some e, ms', visited', evs') \<Longrightarrow>
   list_all merge_shape_ok xs \<Longrightarrow> is_config_error e"
proof (induction xs arbitrary: ms visited evs)
  case Nil
  then show ?case by simp
next
  case (Cons x xs)
  obtain r merge' where pm: "parse_merge E directory x = (r, merge')"
    by (cases "parse_merge E directory x")
  from Cons.prems(2) have shape: "merge_shape_ok x" and rest: "list_all merge_shape_ok xs"
    by simp_all
  have cont: "is_config_error e"
    if "merges_loop E s directory names xs (ms2, visited2, evs2) = (Some e, ms', visited', evs')"
      and "s = smc" for s ms2 visited2 evs2
    using Cons.IH[of ms2 visited2 evs2] that rest by simp
  show ?case
  proof (cases r)
    case (Inl e')
    with Cons.prems(1) pm parse_merge_config_error[of E directory x e' merge'] shape
    show ?thesis by auto
  next
    case (Inr t)
    obtain rm rf m where t: "t = (rm, rf, m)" by (cases t)
    from Cons.prems(1) pm Inr t show ?thesis
      by (auto simp: Let_def split: if_splits query_result.splits intro: cont)
  qed
qed

lemma resolve_merges_config_error:
  assumes "resolve_merges E smc evs directory rs repo_data = (Inl e, repo_data', evs')"
    and "repo_data_shape_ok repo_data" and "smc \<or> set_remote_quiet E"
  shows "is_config_error e"
proof (cases "map_of repo_data (PStr ''merges'')")
  case None
  with assms(1) show ?thesis by (auto simp: resolve_merges_def)
next
  case (Some v)
  obtain xs where it: "py_iter (if truthy v then v else PList []) = Inr xs"
    and shapes: "list_all merge_shape_ok xs"
    using assms(2) Some by (auto simp: repo_data_shape_ok_def split: sum.splits)
  have quiet: "(if \<not> smc \<and> path_exists E directory then set_remotes E directory rs evs
                else (None, evs)) = (None, snd (if \<not> smc \<and> path_exists E directory
                   then set_remotes E directory rs evs else (None, evs)))"
    using assms(3) set_remotes_quiet[of E directory rs evs]
    by (cases "set_remotes E directory rs evs") auto
  from assms(1) Some it show ?thesis
    apply (simp add: resolve_merges_def)
    apply (subst (asm) quiet)
    apply (auto split: prod.splits option.splits if_splits
                dest: merges_loop_config_error[OF _ shapes])
    done
qed

lemma normalize_fetch_all_shape_ok:
  "repo_data_shape_ok repo_data \<Longrightarrow>
   map_of repo_data' (PStr ''fetch_all'') = map_of repo_data (PStr ''fetch_all'') \<Longrightarrow>
   normalize_fetch_all repo_data' \<noteq> Inl e"
  by (auto simp: normalize_fetch_all_def repo_data_shape_ok_def dict_get_def
           split: option.splits pyval.splits if_splits)

lemma resolve_directory_config_error:
  assumes "resolve_directory E frc smc evs key val = (Inl e, val', evs')"
    and "directory_shape_ok (key, val)" and "smc \<or> set_remote_quiet E"
  shows "is_config_error e"
proof -
  obtain d repo_data where key: "key = PStr d" and val: "val = PDict repo_data"
    and shape: "repo_data_shape_ok repo_data"
    using assms(2) by (cases key; cases val) auto
  from assms(1) show ?thesis
    by (auto simp: resolve_directory_def Let_def key val
             split: prod.splits sum.splits
             dest: resolve_remotes_config_error[OF _ shape]
                   resolve_merges_config_error[OF _ shape assms(3)]
                   resolve_merges_other_key[where k = "PStr ''fetch_all''"]
                   normalize_fetch_all_shape_ok[OF shape]
                   resolve_target_error)
qed

lemma repos_loop_first_failure:
  "result (repos_loop E frc smc config (repo_list, visited, evs)) = Inl e \<Longrightarrow>
   \<exists>before key val rest specs visited1 evs1 val' evs'.
      config = before @ (key, val) # rest
    \<and> repos_loop E frc smc before (repo_list, visited, evs)
        = \<lparr>result = Inr specs, config_after = visited1, trace = evs1\<rparr>
    \<and> resolve_directory E frc smc evs1 key val = (Inl e, val', evs')"
proof (induction config arbitrary: repo_list visited evs)
  case Nil
  then show ?case by simp
next
  case (Cons kv config)
  obtain key val where kv: "kv = (key, val)" by (cases kv)
  obtain r val' evs' where rd: "resolve_directory E frc smc evs key val = (r, val', evs')"
    by (cases "resolve_directory E frc smc evs key val")
  show ?case
  proof (cases r)
    case (Inl e')
    with Cons.prems rd have "e' = e" by (simp add: kv)
    with rd Inl have "kv # config = [] @ (key, val) # config
      \<and> repos_loop E frc smc [] (repo_list, visited, evs)
          = \<lparr>result = Inr repo_list, config_after = visited, trace = evs\<rparr>
      \<and> resolve_directory E frc smc evs key val = (Inl e, val', evs')"
      by (simp add: kv)
    then show ?thesis by blast
  next
    case (Inr spec)
    with Cons.prems rd
    have "result (repos_loop E frc smc config (repo_list @ [spec], visited @ [(key, val')], evs'))
            = Inl e"
      by (simp add: kv)
    from Cons.IH[OF this] obtain before key2 val2 rest specs visited1 evs1 val2' evs2 where
      c: "config = before @ (key2, val2) # rest"
      and b: "repos_loop E frc smc before (repo_list @ [spec], visited @ [(key, val')], evs')
            = \<lparr>result = Inr specs, config_after = visited1, trace = evs1\<rparr>"
      and f: "resolve_directory E frc smc evs1 key2 val2 = (Inl e, val2', evs2)"
      by blast
    have "kv # config = (kv # before) @ (key2, val2) # rest
      \<and> repos_loop E frc smc (kv # before) (repo_list, visited, evs)
          = \<lparr>result = Inr specs, config_after = visited1, trace = evs1\<rparr>
      \<and> resolve_directory E frc smc evs1 key2 val2 = (Inl e, val2', evs2)"
      using c b f rd Inr by (simp add: kv)
    then show ?thesis by blast
  qed
qed

lemma config_error_input [simp]: "input_error (config_error directory text)"
  by (simp add: config_error_def)

lemma config_is_input: "is_config_error e \<Longrightarrow> input_error e"
  by (cases e) auto

lemma set_remotes_raised:
  assumes "set_remotes E directory rs evs = (Some e, evs')"
  shows "\<not> input_error e \<and> \<not> set_remote_quiet E"
proof -
  have "\<not> input_error e"
    using assms by (induction rs arbitrary: evs) (auto split: option.splits)
  moreover have "\<not> set_remote_quiet E"
    using assms set_remotes_quiet[of E directory rs evs] by auto
  ultimately show ?thesis by simp
qed

lemma remotes_from_data_input_error:
  "remotes_from_data E directory items acc = Inl e \<Longrightarrow> input_error e"
  using remotes_from_data_error config_is_input by blast

lemma resolve_remotes_input_error:
  "resolve_remotes E evs directory repo_data = (Inl e, evs') \<Longrightarrow> input_error e"
  by (auto simp: resolve_remotes_def
           split: option.splits pyval.splits sum.splits if_splits
           dest: remotes_from_data_input_error)

lemma parse_merge_input_error:
  "parse_merge E directory merge = (Inl e, merge') \<Longrightarrow> input_error e"
  by (auto simp: parse_merge_def Let_def split: pyval.splits list.splits option.splits)

lemma merges_loop_input_error:
  "merges_loop E smc directory names xs (ms, visited, evs) = (Some e, ms', visited', evs') \<Longrightarrow>
   input_error e"
proof (induction xs arbitrary: ms visited evs)
  case Nil
  then show ?case by simp
next
  case (Cons y xs)
  obtain r merge' where pm: "parse_merge E directory y = (r, merge')"
    by (cases "parse_merge E directory y")
  have cont: "input_error e"
    if "merges_loop E s directory names xs (ms2, visited2, evs2) = (Some e, ms', visited', evs')"
      and "s = smc" for s ms2 visited2 evs2
    using Cons.IH[of ms2 visited2 evs2] that by simp
  show ?case
  proof (cases r)
    case (Inl e')
    with Cons.prems pm parse_merge_input_error[of E directory y e' merge'] show ?thesis by auto
  next
    case (Inr t)
    obtain rm rf m where t: "t = (rm, rf, m)" by (cases t)
    from Cons.prems pm Inr t show ?thesis
      by (auto simp: Let_def split: if_splits query_result.splits intro: cont)
  qed
qed

lemma resolve_merges_raised:
  "resolve_merges E smc evs directory rs repo_data = (Inl e, repo_data', evs') \<Longrightarrow>
   \<not> input_error e \<Longrightarrow> \<not> smc \<and> path_exists E directory \<and> \<not> set_remote_quiet E"
  by (auto simp: resolve_merges_def
           split: option.splits prod.splits sum.splits if_splits
           dest: set_remotes_raised merges_loop_input_error py_iter_error)

lemma resolve_directory_raised:
  "resolve_directory E frc smc evs key val = (Inl e, val', evs') \<Longrightarrow> \<not> input_error e \<Longrightarrow>
   \<not> smc \<and> \<not> set_remote_quiet E"
  by (auto simp: resolve_directory_def Let_def
           split: pyval.splits prod.splits sum.splits
           dest: resolve_remotes_input_error resolve_merges_raised normalize_fetch_all_error
                 resolve_target_error config_is_input)

lemma resolve_merges_shape_error:
  assumes "resolve_merges E smc evs directory rs repo_data = (Inl e, repo_data', evs')"
    and "repo_data_shape_ok repo_data"
  shows "is_config_error e \<or> \<not> input_error e"
proof (cases "map_of repo_data (PStr ''merges'')")
  case None
  with assms(1) show ?thesis by (auto simp: resolve_merges_def)
next
  case (Some v)
  obtain xs where it: "py_iter (if truthy v then v else PList []) = Inr xs"
    and shapes: "list_all merge_shape_ok xs"
    using assms(2) Some by (auto simp: repo_data_shape_ok_def split: sum.splits)
  from assms(1) Some it show ?thesis
    by (auto simp: resolve_merges_def split: prod.splits option.splits if_splits
             dest: merges_loop_config_error[OF _ shapes] set_remotes_raised)
qed

lemma resolve_directory_shape_error:
  assumes "resolve_directory E frc smc evs key val = (Inl e, val', evs')"
    and "directory_shape_ok (key, val)"
  shows "is_config_error e \<or> \<not> input_error e"
proof -
  obtain d repo_data where key: "key = PStr d" and val: "val = PDict repo_data"
    and shape: "repo_data_shape_ok repo_data"
    using assms(2) by (cases key; cases val) auto
  from assms(1) show ?thesis
    by (auto simp: resolve_directory_def Let_def key val
             split: prod.splits sum.splits
             dest: resolve_remotes_config_error[OF _ shape]
                   resolve_merges_shape_error[OF _ shape]
                   resolve_merges_other_key[where k = "PStr ''fetch_all''"]
                   normalize_fetch_all_shape_ok[OF shape]
                   resolve_target_error)
qed

text \<open>C8, amended: when get\_repos raises \<open>e\<close>, the directories before some directory
  resolve and that directory, the first that does not resolve, raises \<open>e\<close>. If \<open>e\<close> is a
  configuration error, its message starts with the absolute path of that directory. If
  that directory has the documented shape (a string as key, a dict as value, \<^verbatim>\<open>remotes\<close> a
  dict or empty, \<^verbatim>\<open>merges\<close> strings and dicts or empty, nothing unhashable in a
  \<^verbatim>\<open>fetch_all\<close> list) and the merge check is skipped or \<^verbatim>\<open>_set_remote\<close> does not raise,
  \<open>e\<close> is a configuration error. Any other exception is either one of the git layer,
  and then the merge check is not skipped and \<^verbatim>\<open>_set_remote\<close> can raise, or a built-in
  exception, and then the directory does not have the documented shape.\<close>

theorem config_errors_name_directory:
  assumes "result (get_repos E config force_flag skip_merge_check) = Inl e"
  shows "\<exists>before key val rest specs val' evs'.
           config = before @ (key, val) # rest
         \<and> result (get_repos E before force_flag skip_merge_check) = Inr specs
         \<and> resolve_directory E force_flag skip_merge_check
              (trace (get_repos E before force_flag skip_merge_check)) key val = (Inl e, val', evs')
         \<and> (\<forall>msg. e = ConfigException msg \<longrightarrow> names_directory E msg (key, val))
         \<and> (directory_shape_ok (key, val) \<and> (skip_merge_check \<or> set_remote_quiet E)
              \<longrightarrow> is_config_error e)
         \<and> (input_error e \<and> \<not> is_config_error e \<longrightarrow> \<not> directory_shape_ok (key, val))
         \<and> (\<not> input_error e \<longrightarrow> \<not> skip_merge_check \<and> \<not> set_remote_quiet E)"
proof -
  from assms obtain before key val rest specs visited1 evs1 val' evs' where
    c: "config = before @ (key, val) # rest"
    and b: "repos_loop E force_flag skip_merge_check before ([], [], [])
              = \<lparr>result = Inr specs, config_after = visited1, trace = evs1\<rparr>"
    and f: "resolve_directory E force_flag skip_merge_check evs1 key val = (Inl e, val', evs')"
    unfolding get_repos_def by (blast dest: repos_loop_first_failure)
  have r: "result (get_repos E before force_flag skip_merge_check) = Inr specs"
    and t: "trace (get_repos E before force_flag skip_merge_check) = evs1"
    using b by (simp_all add: get_repos_def)
  have f': "resolve_directory E force_flag skip_merge_check
              (trace (get_repos E before force_flag skip_merge_check)) key val = (Inl e, val', evs')"
    using f t by simp
  have n: "\<forall>msg. e = ConfigException msg \<longrightarrow> names_directory E msg (key, val)"
    using f resolve_directory_names_directory by blast
  have k: "directory_shape_ok (key, val) \<and> (skip_merge_check \<or> set_remote_quiet E)
              \<longrightarrow> is_config_error e"
    using f resolve_directory_config_error by blast
  have s: "input_error e \<and> \<not> is_config_error e \<longrightarrow> \<not> directory_shape_ok (key, val)"
    using f resolve_directory_shape_error by blast
  have g: "\<not> input_error e \<longrightarrow> \<not> skip_merge_check \<and> \<not> set_remote_quiet E"
    using f resolve_directory_raised by blast
  from c r f' n k s g show ?thesis by blast
qed

text \<open>C8 as stated fails, in three ways. A merge entry that is neither a string nor a
  dict, such as the integer 5, makes get\_repos raise \<^verbatim>\<open>TypeError\<close> (line 96 subscripts
  the entry, and line 98 catches \<^verbatim>\<open>KeyError\<close> only). A directory whose value is
  \<^verbatim>\<open>None\<close> makes it raise \<^verbatim>\<open>AttributeError\<close> (line 34 calls \<^verbatim>\<open>get\<close> on the value). And
  for a configuration of the documented shape, with the merge check not skipped and the
  directory on disk, an exception of \<^verbatim>\<open>_set_remote\<close> leaves get\_repos as it is (lines 79
  and 80 are outside any \<^verbatim>\<open>try\<close>).\<close>

theorem other_exceptions_counterexample:
  "result (get_repos sample_env
     (one_merge_config ''/d'' (PDict [(PStr ''origin'', PStr ''u'')]) (PInt 5)) False True)
     = Inl TypeError
   \<and> result (get_repos sample_env [(PStr ''/d'', PNone)] False True) = Inl AttributeError
   \<and> well_shaped (one_merge_config ''/d'' (PDict [(PStr ''origin'', PStr ''u'')])
        (PStr ''origin 14.0''))
   \<and> result (get_repos failing_env
        (one_merge_config ''/d'' (PDict [(PStr ''origin'', PStr ''u'')]) (PStr ''origin 14.0''))
        False False)
     = Inl (Raised ''git failed'')"
  by (simp add: resolve_unfold one_merge_config_def Let_def well_shaped_def
       repo_data_shape_ok_def failing_env_def sample_env_def posix_isabs_def)

theorem config_errors_name_directory_witness:
  "result (get_repos sample_env
      [(PStr ''b'', PDict [(PStr ''remotes'', PDict [(PStr ''origin'', PStr ''u'')])])] False True)
     = Inl (ConfigException ''/work/b: merges is not defined.'')
   \<and> directory_shape_ok (PStr ''b'', PDict [(PStr ''remotes'', PDict [(PStr ''origin'', PStr ''u'')])])
   \<and> names_directory sample_env ''/work/b: merges is not defined.''
        (PStr ''b'', PDict [(PStr ''remotes'', PDict [(PStr ''origin'', PStr ''u'')])])
   \<and> is_config_error (ConfigException ''/work/b: merges is not defined.'')"
proof -
  let ?entry = "(PStr ''b'', PDict [(PStr ''remotes'', PDict [(PStr ''origin'', PStr ''u'')])])"
  have run: "result (get_repos sample_env [?entry] False True)
     = Inl (ConfigException ''/work/b: merges is not defined.'')"
    by (simp add: resolve_unfold sample_env_def posix_isabs_def config_error_def)
  have shape: "directory_shape_ok ?entry"
    by (simp add: repo_data_shape_ok_def)
  from config_errors_name_directory[OF run]
  obtain before key val rest where c: "[?entry] = before @ (key, val) # rest"
    and n: "\<forall>msg. ConfigException ''/work/b: merges is not defined.'' = ConfigException msg
               \<longrightarrow> names_directory sample_env msg (key, val)"
    and k: "directory_shape_ok (key, val) \<and> (True \<or> set_remote_quiet sample_env)
               \<longrightarrow> is_config_error (ConfigException ''/work/b: merges is not defined.'')"
    by blast
  from c have kv: "(key, val) = ?entry"
    by (cases before) auto
  from n kv have "names_directory sample_env ''/work/b: merges is not defined.'' ?entry"
    by simp
  moreover from k kv shape
  have "is_config_error (ConfigException ''/work/b: merges is not defined.'')" by simp
  ultimately show ?thesis using run shape by blast
qed

end
